theory Spec2Isabelle
  imports Complex_Main
begin

section \<open>The document state machine of the layout editor (state/editorState.tsx)\<close>

subsection \<open>Numbers\<close>

text \<open>
  The source computes with the numbers of its host language: IEEE doubles with two
  infinities and NaN. A finite value is modelled by the real number it denotes (rounding
  and the sign of zero are not modelled); the infinities and NaN are kept, because
  \<^verbatim>\<open>Math.min()\<close> and \<^verbatim>\<open>Math.max()\<close> of no arguments return them
  and because both functions propagate NaN.
\<close>

datatype number = Num real | PosInfinity | NegInfinity | NaN

text \<open>\<^verbatim>\<open>Math.min(a, b)\<close> and \<^verbatim>\<open>Math.max(a, b)\<close>: NaN if either argument is NaN.\<close>

fun Math_min :: "number \<Rightarrow> number \<Rightarrow> number" where
  "Math_min NaN b = NaN"
| "Math_min a NaN = NaN"
| "Math_min NegInfinity b = NegInfinity"
| "Math_min a NegInfinity = NegInfinity"
| "Math_min PosInfinity b = b"
| "Math_min a PosInfinity = a"
| "Math_min (Num a) (Num b) = Num (min a b)"

fun Math_max :: "number \<Rightarrow> number \<Rightarrow> number" where
  "Math_max NaN b = NaN"
| "Math_max a NaN = NaN"
| "Math_max PosInfinity b = PosInfinity"
| "Math_max a PosInfinity = PosInfinity"
| "Math_max NegInfinity b = b"
| "Math_max a NegInfinity = a"
| "Math_max (Num a) (Num b) = Num (max a b)"

text \<open>
  \<^verbatim>\<open>Math.min(...xs)\<close> and \<^verbatim>\<open>Math.max(...xs)\<close> over a spread array: the
  result for no argument is \<^verbatim>\<open>Infinity\<close>, respectively \<^verbatim>\<open>-Infinity\<close>.
\<close>

definition Math_min_spread :: "number list \<Rightarrow> number" where
  "Math_min_spread xs = foldr Math_min xs PosInfinity"

definition Math_max_spread :: "number list \<Rightarrow> number" where
  "Math_max_spread xs = foldr Math_max xs NegInfinity"

text \<open>The binary minus of the host language.\<close>

fun minus_number :: "number \<Rightarrow> number \<Rightarrow> number" where
  "minus_number NaN b = NaN"
| "minus_number a NaN = NaN"
| "minus_number (Num a) (Num b) = Num (a - b)"
| "minus_number (Num a) PosInfinity = NegInfinity"
| "minus_number (Num a) NegInfinity = PosInfinity"
| "minus_number PosInfinity PosInfinity = NaN"
| "minus_number PosInfinity b = PosInfinity"
| "minus_number NegInfinity NegInfinity = NaN"
| "minus_number NegInfinity b = NegInfinity"

text \<open>An array index as a number.\<close>

definition index_number :: "nat \<Rightarrow> number" where
  "index_number i = Num (real i)"

subsection \<open>Data model\<close>

datatype ObjectType = T_region | T_text | T_image | T_rect | T_circle

datatype Align = A_left | A_center | A_right

text \<open>
  \<^verbatim>\<open>EditorObject\<close>. An optional field (\<^verbatim>\<open>scaleX?: number\<close>) is an option,
  \<open>None\<close> when the key is absent or undefined. The fields \<^verbatim>\<open>id\<close>,
  \<^verbatim>\<open>type\<close>, \<^verbatim>\<open>name\<close>, \<^verbatim>\<open>x\<close>, \<^verbatim>\<open>y\<close> and
  \<^verbatim>\<open>text\<close> carry the prefix \<open>obj_\<close>: their names are taken in HOL or would
  capture variables.
\<close>

record EditorObject =
  obj_id :: string
  obj_type :: ObjectType
  obj_name :: string
  obj_x :: number
  obj_y :: number
  width :: number
  height :: number
  rotation :: number
  zIndex :: number
  scaleX :: "number option"
  scaleY :: "number option"
  fill :: "string option"
  stroke :: "string option"
  strokeWidth :: "number option"
  opacity :: number
  visible :: bool
  locked :: bool
  patternId :: "string option"
  points :: "number list option"
  obj_text :: "string option"
  fontSize :: "number option"
  fontFamily :: "string option"
  align :: "Align option"
  src :: "string option"

record Pan =
  pan_x :: number
  pan_y :: number

record EditorPresent =
  objects :: "EditorObject list"
  selectedId :: "string option"
  zoom :: number
  pan :: Pan

record EditorState =
  past :: "EditorPresent list"
  present :: EditorPresent
  future :: "EditorPresent list"

text \<open>
  \<^verbatim>\<open>Partial<EditorObject>\<close>, the payload of an update: for every field, \<open>None\<close>
  when the key is absent and \<open>Some v\<close> when the key is present with value \<open>v\<close>
  (for an optional field \<open>v\<close> is itself an option: the key may be present and undefined).
\<close>

record Changes =
  c_id :: "string option"
  c_type :: "ObjectType option"
  c_name :: "string option"
  c_x :: "number option"
  c_y :: "number option"
  c_width :: "number option"
  c_height :: "number option"
  c_rotation :: "number option"
  c_zIndex :: "number option"
  c_scaleX :: "number option option"
  c_scaleY :: "number option option"
  c_fill :: "string option option"
  c_stroke :: "string option option"
  c_strokeWidth :: "number option option"
  c_opacity :: "number option"
  c_visible :: "bool option"
  c_locked :: "bool option"
  c_patternId :: "string option option"
  c_points :: "number list option option"
  c_text :: "string option option"
  c_fontSize :: "number option option"
  c_fontFamily :: "string option option"
  c_align :: "Align option option"
  c_src :: "string option option"

datatype EditorAction =
    SET_SELECTED "string option"
  | ADD_OBJECT EditorObject
  | UPDATE_OBJECT string Changes
  | DELETE_OBJECT string
  | BRING_TO_FRONT string
  | SEND_TO_BACK string
  | SET_VISIBILITY string bool
  | SET_LOCK string bool
  | SET_ZOOM number
  | SET_VIEWPORT number Pan
  | SET_PAN Pan
  | RESET
  | IMPORT_STATE EditorPresent
  | UNDO
  | REDO
  | CLEAR

subsection \<open>Geometry\<close>

definition clamp :: "number \<Rightarrow> number \<Rightarrow> number \<Rightarrow> number" where
  "clamp v lo hi = Math_min (Math_max v lo) hi"

text \<open>
  The loop of \<^verbatim>\<open>getBoundsFromPoints\<close> walks the flat array two entries at a time
  and pushes \<^verbatim>\<open>points[i]\<close> and \<^verbatim>\<open>points[i + 1]\<close>. For an array of odd
  length the last \<^verbatim>\<open>points[i + 1]\<close> is undefined, which \<^verbatim>\<open>Math.min\<close> and
  \<^verbatim>\<open>Math.max\<close> (the only readers of \<^verbatim>\<open>ys\<close>) convert to NaN.
\<close>

fun split_points :: "number list \<Rightarrow> number list \<times> number list" where
  "split_points [] = ([], [])"
| "split_points [a] = ([a], [NaN])"
| "split_points (a # b # rest) =
     (case split_points rest of (xs, ys) \<Rightarrow> (a # xs, b # ys))"

record Bounds =
  b_width :: number
  b_height :: number
  b_minX :: number
  b_minY :: number

definition getBoundsFromPoints :: "number list \<Rightarrow> Bounds" where
  "getBoundsFromPoints pts =
     (case split_points pts of (xs, ys) \<Rightarrow>
        let minX = Math_min_spread xs;
            maxX = Math_max_spread xs;
            minY = Math_min_spread ys;
            maxY = Math_max_spread ys
        in \<lparr> b_width = minus_number maxX minX, b_height = minus_number maxY minY,
             b_minX = minX, b_minY = minY \<rparr>)"

definition createRegion ::
  "string \<Rightarrow> string \<Rightarrow> number list \<Rightarrow> string \<Rightarrow> number \<Rightarrow> EditorObject" where
  "createRegion i nm pts fl z =
     (let bounds = getBoundsFromPoints pts in
      \<lparr> obj_id = i, obj_type = T_region, obj_name = nm,
        obj_x = Num 0, obj_y = Num 0,
        width = b_width bounds, height = b_height bounds,
        rotation = Num 0, zIndex = z,
        scaleX = Some (Num 1), scaleY = Some (Num 1),
        fill = Some fl, stroke = Some ''#0f172a'', strokeWidth = Some (Num 0.8),
        opacity = Num 0.95, visible = True, locked = False,
        patternId = None, points = Some pts, obj_text = None,
        fontSize = None, fontFamily = None, align = None, src = None \<rparr>)"

definition initialRegions :: "EditorObject list" where
  "initialRegions =
     [ createRegion ''region-top'' ''Top Panel''
         (map Num [120, 60, 220, 60, 250, 150, 90, 150]) ''#fef2f2'' (Num 0),
       createRegion ''region-bottom'' ''Bottom Panel''
         (map Num [110, 170, 240, 170, 230, 260, 120, 260]) ''#e0f2fe'' (Num 1),
       createRegion ''region-left-strap'' ''Left Strap''
         (map Num [110, 60, 130, 60, 110, 20, 90, 20]) ''#ede9fe'' (Num 2),
       createRegion ''region-right-strap'' ''Right Strap''
         (map Num [220, 60, 240, 60, 260, 20, 240, 20]) ''#eef2ff'' (Num 3) ]"

definition initialPresent :: EditorPresent where
  "initialPresent =
     \<lparr> objects = initialRegions, selectedId = None, zoom = Num 1,
       pan = \<lparr> pan_x = Num 0, pan_y = Num 0 \<rparr> \<rparr>"

text \<open>The state \<^verbatim>\<open>EditorProvider\<close> hands to \<^verbatim>\<open>useReducer\<close>.\<close>

definition initialState :: EditorState where
  "initialState = \<lparr> past = [], present = initialPresent, future = [] \<rparr>"

subsection \<open>The reducer\<close>

definition normalizeZIndex :: "EditorObject list \<Rightarrow> EditorObject list" where
  "normalizeZIndex objs =
     map (\<lambda>(index, obj). obj\<lparr> zIndex := index_number index \<rparr>) (enumerate 0 objs)"

definition pushHistory :: "EditorState \<Rightarrow> EditorPresent \<Rightarrow> EditorState" where
  "pushHistory state nxt =
     \<lparr> past = past state @ [present state], present = nxt, future = [] \<rparr>"

text \<open>One key of the spread \<^verbatim>\<open>{ ...obj, ...action.changes }\<close>: a present key wins.\<close>

definition spread :: "'a \<Rightarrow> 'a option \<Rightarrow> 'a" where
  "spread old change = (case change of None \<Rightarrow> old | Some v \<Rightarrow> v)"

definition applyChanges :: "EditorObject \<Rightarrow> Changes \<Rightarrow> EditorObject" where
  "applyChanges obj ch =
     \<lparr> obj_id = spread (obj_id obj) (c_id ch),
       obj_type = spread (obj_type obj) (c_type ch),
       obj_name = spread (obj_name obj) (c_name ch),
       obj_x = spread (obj_x obj) (c_x ch),
       obj_y = spread (obj_y obj) (c_y ch),
       width = spread (width obj) (c_width ch),
       height = spread (height obj) (c_height ch),
       rotation = spread (rotation obj) (c_rotation ch),
       zIndex = spread (zIndex obj) (c_zIndex ch),
       scaleX = spread (scaleX obj) (c_scaleX ch),
       scaleY = spread (scaleY obj) (c_scaleY ch),
       fill = spread (fill obj) (c_fill ch),
       stroke = spread (stroke obj) (c_stroke ch),
       strokeWidth = spread (strokeWidth obj) (c_strokeWidth ch),
       opacity = spread (opacity obj) (c_opacity ch),
       visible = spread (visible obj) (c_visible ch),
       locked = spread (locked obj) (c_locked ch),
       patternId = spread (patternId obj) (c_patternId ch),
       points = spread (points obj) (c_points ch),
       obj_text = spread (obj_text obj) (c_text ch),
       fontSize = spread (fontSize obj) (c_fontSize ch),
       fontFamily = spread (fontFamily obj) (c_fontFamily ch),
       align = spread (align obj) (c_align ch),
       src = spread (src obj) (c_src ch) \<rparr>"

fun editorReducer :: "EditorState \<Rightarrow> EditorAction \<Rightarrow> EditorState" where
  "editorReducer state (SET_SELECTED i) =
     state\<lparr> present := (present state)\<lparr> selectedId := i \<rparr> \<rparr>"
| "editorReducer state (ADD_OBJECT object) =
     (let objs = normalizeZIndex
            (objects (present state) @
             [object\<lparr> zIndex := index_number (length (objects (present state))) \<rparr>]);
          pres = (present state)\<lparr> objects := objs, selectedId := Some (obj_id object) \<rparr>
      in pushHistory state pres)"
| "editorReducer state (UPDATE_OBJECT i changes) =
     (let objs = normalizeZIndex
            (map (\<lambda>obj. if obj_id obj = i then applyChanges obj changes else obj)
               (objects (present state)))
      in pushHistory state ((present state)\<lparr> objects := objs \<rparr>))"
| "editorReducer state (DELETE_OBJECT i) =
     (let objs = normalizeZIndex (filter (\<lambda>obj. obj_id obj \<noteq> i) (objects (present state)));
          sel = (if selectedId (present state) = Some i then None
                 else selectedId (present state))
      in pushHistory state ((present state)\<lparr> objects := objs, selectedId := sel \<rparr>))"
| "editorReducer state (BRING_TO_FRONT i) =
     (case find (\<lambda>ob. obj_id ob = i) (objects (present state)) of
        None \<Rightarrow> state
      | Some target \<Rightarrow>
          let rest = filter (\<lambda>ob. obj_id ob \<noteq> i) (objects (present state))
          in pushHistory state
               ((present state)\<lparr> objects := normalizeZIndex (rest @ [target]) \<rparr>))"
| "editorReducer state (SEND_TO_BACK i) =
     (case find (\<lambda>ob. obj_id ob = i) (objects (present state)) of
        None \<Rightarrow> state
      | Some target \<Rightarrow>
          let rest = filter (\<lambda>ob. obj_id ob \<noteq> i) (objects (present state))
          in pushHistory state
               ((present state)\<lparr> objects := normalizeZIndex (target # rest) \<rparr>))"
| "editorReducer state (SET_VISIBILITY i v) =
     (let objs = normalizeZIndex
            (map (\<lambda>obj. if obj_id obj = i then obj\<lparr> visible := v \<rparr> else obj)
               (objects (present state)))
      in pushHistory state ((present state)\<lparr> objects := objs \<rparr>))"
| "editorReducer state (SET_LOCK i l) =
     (let objs = normalizeZIndex
            (map (\<lambda>obj. if obj_id obj = i then obj\<lparr> locked := l \<rparr> else obj)
               (objects (present state)))
      in pushHistory state ((present state)\<lparr> objects := objs \<rparr>))"
| "editorReducer state (SET_ZOOM z) =
     (let zm = clamp z (Num 0.2) (Num 4)
      in pushHistory state ((present state)\<lparr> zoom := zm \<rparr>))"
| "editorReducer state (SET_VIEWPORT z p) =
     (let zm = clamp z (Num 0.2) (Num 4)
      in pushHistory state ((present state)\<lparr> zoom := zm, pan := p \<rparr>))"
| "editorReducer state (SET_PAN p) =
     pushHistory state ((present state)\<lparr> pan := p \<rparr>)"
| "editorReducer state RESET =
     \<lparr> past = [], present = initialPresent, future = [] \<rparr>"
| "editorReducer state (IMPORT_STATE p) =
     \<lparr> past = [], present = p\<lparr> objects := normalizeZIndex (objects p) \<rparr>, future = [] \<rparr>"
| "editorReducer state UNDO =
     (if past state = [] then state
      else let previous = last (past state);
               pst = butlast (past state);
               fut = present state # future state
           in \<lparr> past = pst, present = previous, future = fut \<rparr>)"
| "editorReducer state REDO =
     (if future state = [] then state
      else let nxt = hd (future state);
               fut = tl (future state);
               pst = past state @ [present state]
           in \<lparr> past = pst, present = nxt, future = fut \<rparr>)"
| "editorReducer state CLEAR =
     pushHistory state
       ((present state)\<lparr> objects := normalizeZIndex
                             (filter (\<lambda>ob. obj_type ob = T_region) (objects (present state))),
                         selectedId := None \<rparr>)"

text \<open>A run of the reducer: the commands dispatched one after the other.\<close>

definition run :: "EditorState \<Rightarrow> EditorAction list \<Rightarrow> EditorState" where
  "run state actions = foldl editorReducer state actions"

subsection \<open>Serialization\<close>

text \<open>
  Values of the host language, as far as a JSON text can denote them or a snapshot holds
  them. An object is the list of its own properties in insertion order; the keys of an
  object are distinct.
\<close>

datatype jsval =
    JUndefined
  | JNull
  | JBool bool
  | JNumber number
  | JString string
  | JArray "jsval list"
  | JObject "(string \<times> jsval) list"

datatype ParseError = SyntaxError | TypeError

text \<open>
  JSON text. Its concrete syntax (white space, indentation, the digits of a number) is the
  platform's and is not modelled: a well-formed text is modelled by the value that
  \<^verbatim>\<open>JSON.parse\<close> returns for it, and \<^verbatim>\<open>JSON.parse\<close> throws a
  \<^verbatim>\<open>SyntaxError\<close> on every other text.
\<close>

datatype JsonText = Malformed | Wellformed jsval

definition JSON_parse :: "JsonText \<Rightarrow> ParseError + jsval" where
  "JSON_parse t = (case t of Malformed \<Rightarrow> Inl SyntaxError | Wellformed v \<Rightarrow> Inr v)"

text \<open>
  What \<^verbatim>\<open>JSON.stringify\<close> writes of a value: a number that is not finite is written
  as \<^verbatim>\<open>null\<close>, a property whose value is undefined is left out, an undefined array
  element is written as \<^verbatim>\<open>null\<close>.
\<close>

fun jsonNumber :: "number \<Rightarrow> jsval" where
  "jsonNumber (Num r) = JNumber (Num r)"
| "jsonNumber n = JNull"

primrec jsonOf :: "jsval \<Rightarrow> jsval" where
  "jsonOf JUndefined = JUndefined"
| "jsonOf JNull = JNull"
| "jsonOf (JBool b) = JBool b"
| "jsonOf (JNumber n) = jsonNumber n"
| "jsonOf (JString s) = JString s"
| "jsonOf (JArray vs) =
     JArray (map (\<lambda>v. if v = JUndefined then JNull else v) (map jsonOf vs))"
| "jsonOf (JObject ps) =
     JObject (filter (\<lambda>kv. snd kv \<noteq> JUndefined) (map (map_prod id jsonOf) ps))"

definition JSON_stringify :: "jsval \<Rightarrow> JsonText" where
  "JSON_stringify v = Wellformed (jsonOf v)"

text \<open>
  A snapshot as a value of the host language. The keys of an object stand in the order of
  the interface declaration (the code depends on no order); an optional field that is
  \<open>None\<close> is no property.
\<close>

fun objectTypeName :: "ObjectType \<Rightarrow> string" where
  "objectTypeName T_region = ''region''"
| "objectTypeName T_text = ''text''"
| "objectTypeName T_image = ''image''"
| "objectTypeName T_rect = ''rect''"
| "objectTypeName T_circle = ''circle''"

fun alignName :: "Align \<Rightarrow> string" where
  "alignName A_left = ''left''"
| "alignName A_center = ''center''"
| "alignName A_right = ''right''"

definition optProp :: "string \<Rightarrow> ('a \<Rightarrow> jsval) \<Rightarrow> 'a option \<Rightarrow> (string \<times> jsval) list" where
  "optProp k f v = (case v of None \<Rightarrow> [] | Some a \<Rightarrow> [(k, f a)])"

definition objectProps :: "EditorObject \<Rightarrow> (string \<times> jsval) list" where
  "objectProps ob =
     [ (''id'', JString (obj_id ob)),
       (''type'', JString (objectTypeName (obj_type ob))),
       (''name'', JString (obj_name ob)),
       (''x'', JNumber (obj_x ob)),
       (''y'', JNumber (obj_y ob)),
       (''width'', JNumber (width ob)),
       (''height'', JNumber (height ob)),
       (''rotation'', JNumber (rotation ob)),
       (''zIndex'', JNumber (zIndex ob)) ] @
     optProp ''scaleX'' JNumber (scaleX ob) @
     optProp ''scaleY'' JNumber (scaleY ob) @
     optProp ''fill'' JString (fill ob) @
     optProp ''stroke'' JString (stroke ob) @
     optProp ''strokeWidth'' JNumber (strokeWidth ob) @
     [ (''opacity'', JNumber (opacity ob)),
       (''visible'', JBool (visible ob)),
       (''locked'', JBool (locked ob)) ] @
     optProp ''patternId'' JString (patternId ob) @
     optProp ''points'' (\<lambda>ps. JArray (map JNumber ps)) (points ob) @
     optProp ''text'' JString (obj_text ob) @
     optProp ''fontSize'' JNumber (fontSize ob) @
     optProp ''fontFamily'' JString (fontFamily ob) @
     optProp ''align'' (\<lambda>a. JString (alignName a)) (align ob) @
     optProp ''src'' JString (src ob)"

definition objectValue :: "EditorObject \<Rightarrow> jsval" where
  "objectValue ob = JObject (objectProps ob)"

definition presentValue :: "EditorPresent \<Rightarrow> jsval" where
  "presentValue p =
     JObject
       [ (''objects'', JArray (map objectValue (objects p))),
         (''selectedId'', (case selectedId p of None \<Rightarrow> JNull | Some i \<Rightarrow> JString i)),
         (''zoom'', JNumber (zoom p)),
         (''pan'', JObject [ (''x'', JNumber (pan_x (pan p))),
                             (''y'', JNumber (pan_y (pan p))) ]) ]"

definition serializeState :: "EditorPresent \<Rightarrow> JsonText" where
  "serializeState p = JSON_stringify (presentValue p)"

text \<open>
  \<^verbatim>\<open>parseState\<close> works on whatever value \<^verbatim>\<open>JSON.parse\<close> returns; the cast to
  \<^verbatim>\<open>EditorPresent\<close> checks nothing. The operations it applies to the value:

  \<^item> \<^verbatim>\<open>parsed.objects\<close>: reading a property of \<^verbatim>\<open>null\<close> throws a
    \<^verbatim>\<open>TypeError\<close>; a number, boolean, string or array has no property of that name.
  \<^item> \<^verbatim>\<open>?? []\<close>: the empty array stands in for \<^verbatim>\<open>null\<close> and undefined.
  \<^item> \<^verbatim>\<open>{ ...v }\<close>: the own properties of an object; the elements of an array and the
    characters of a string under their indices; nothing for any other value.
  \<^item> \<^verbatim>\<open>{ ..., key: v }\<close>: an existing key keeps its place and gets the new value, a new
    key goes to the end.
  \<^item> \<^verbatim>\<open>objects.map(...)\<close>: only an array has \<^verbatim>\<open>map\<close>; calling it on any
    other value throws a \<^verbatim>\<open>TypeError\<close>.
\<close>

fun getObjects :: "jsval \<Rightarrow> ParseError + jsval" where
  "getObjects JUndefined = Inl TypeError"
| "getObjects JNull = Inl TypeError"
| "getObjects (JObject ps) = Inr (case map_of ps ''objects'' of None \<Rightarrow> JUndefined | Some v \<Rightarrow> v)"
| "getObjects v = Inr JUndefined"

definition nullish :: "jsval \<Rightarrow> jsval \<Rightarrow> jsval" where
  "nullish v d = (if v = JUndefined \<or> v = JNull then d else v)"

fun decimal :: "nat \<Rightarrow> string" where
  "decimal n =
     (if n < 10 then [''0123456789'' ! n]
      else decimal (n div 10) @ [''0123456789'' ! (n mod 10)])"

fun spreadValue :: "jsval \<Rightarrow> (string \<times> jsval) list" where
  "spreadValue (JObject ps) = ps"
| "spreadValue (JArray vs) = zip (map decimal [0..<length vs]) vs"
| "spreadValue (JString s) = zip (map decimal [0..<length s]) (map (\<lambda>c. JString [c]) s)"
| "spreadValue v = []"

definition setProp :: "string \<Rightarrow> jsval \<Rightarrow> (string \<times> jsval) list \<Rightarrow> (string \<times> jsval) list" where
  "setProp k v ps =
     (if k \<in> set (map fst ps)
      then map (\<lambda>kv. if fst kv = k then (k, v) else kv) ps
      else ps @ [(k, v)])"

text \<open>\<^verbatim>\<open>normalizeZIndex\<close>, as it runs on the value that \<^verbatim>\<open>parseState\<close> hands it.\<close>

fun normalizeZIndexValue :: "jsval \<Rightarrow> ParseError + jsval" where
  "normalizeZIndexValue (JArray vs) =
     Inr (JArray (map (\<lambda>(index, obj).
                          JObject (setProp ''zIndex'' (JNumber (index_number index))
                                     (spreadValue obj)))
                    (enumerate 0 vs)))"
| "normalizeZIndexValue v = Inl TypeError"

definition parseState :: "JsonText \<Rightarrow> ParseError + jsval" where
  "parseState json =
     (case JSON_parse json of
        Inl e \<Rightarrow> Inl e
      | Inr parsed \<Rightarrow>
          (case getObjects parsed of
             Inl e \<Rightarrow> Inl e
           | Inr objs \<Rightarrow>
               (case normalizeZIndexValue (nullish objs (JArray [])) of
                  Inl e \<Rightarrow> Inl e
                | Inr normalized \<Rightarrow>
                    Inr (JObject (setProp ''objects'' normalized (spreadValue parsed))))))"

subsection \<open>Predicates of the specification\<close>

text \<open>
  The z-order indices of a collection are dense and follow the array order: the object at
  position \<open>k\<close> has z-index \<open>k\<close>.
\<close>

definition zIndexNormalized :: "EditorObject list \<Rightarrow> bool" where
  "zIndexNormalized objs = (map zIndex objs = map index_number [0..<length objs])"

definition everySnapshot :: "(EditorPresent \<Rightarrow> bool) \<Rightarrow> EditorState \<Rightarrow> bool" where
  "everySnapshot P state =
     (P (present state) \<and> list_all P (past state) \<and> list_all P (future state))"

definition snapshotNormalized :: "EditorPresent \<Rightarrow> bool" where
  "snapshotNormalized p = zIndexNormalized (objects p)"

text \<open>
  Normalization as the specification words it: every object gets as z-index its position
  in the ordered collection, the order is kept.
\<close>

fun renumberFrom :: "nat \<Rightarrow> EditorObject list \<Rightarrow> EditorObject list" where
  "renumberFrom k [] = []"
| "renumberFrom k (ob # obs) = ob\<lparr> zIndex := Num (real k) \<rparr> # renumberFrom (Suc k) obs"




text \<open>Some object of the snapshot has the id.\<close>

definition hasId :: "EditorPresent \<Rightarrow> string \<Rightarrow> bool" where
  "hasId p i = (i \<in> set (map obj_id (objects p)))"


text \<open>The update payload \<^verbatim>\<open>{}\<close>.\<close>

definition noChanges :: Changes where
  "noChanges =
     \<lparr> c_id = None, c_type = None, c_name = None, c_x = None, c_y = None, c_width = None,
       c_height = None, c_rotation = None, c_zIndex = None, c_scaleX = None, c_scaleY = None,
       c_fill = None, c_stroke = None, c_strokeWidth = None, c_opacity = None,
       c_visible = None, c_locked = None, c_patternId = None, c_points = None, c_text = None,
       c_fontSize = None, c_fontFamily = None, c_align = None, c_src = None \<rparr>"

text \<open>The zoom factor is a number of the closed interval from 0.2 to 4.\<close>

fun zoomInRange :: "number \<Rightarrow> bool" where
  "zoomInRange (Num r) = (0.2 \<le> r \<and> r \<le> 4)"
| "zoomInRange z = False"

definition snapshotZoomInRange :: "EditorPresent \<Rightarrow> bool" where
  "snapshotZoomInRange p = zoomInRange (zoom p)"

text \<open>
  What a command carries as zoom: a set-zoom or set-viewport request that is a number
  (not NaN), an imported snapshot whose zoom is in range.
\<close>

fun zoomRequestOk :: "EditorAction \<Rightarrow> bool" where
  "zoomRequestOk (SET_ZOOM z) = (z \<noteq> NaN)"
| "zoomRequestOk (SET_VIEWPORT z p) = (z \<noteq> NaN)"
| "zoomRequestOk (IMPORT_STATE p) = zoomInRange (zoom p)"
| "zoomRequestOk a = True"

text \<open>The ids of a collection are pairwise distinct.\<close>

definition distinctIds :: "EditorObject list \<Rightarrow> bool" where
  "distinctIds objs = distinct (map obj_id objs)"

definition snapshotDistinctIds :: "EditorPresent \<Rightarrow> bool" where
  "snapshotDistinctIds p = distinctIds (objects p)"

text \<open>
  What a command carries as ids: an added object whose id no object of the present has, an
  update whose changes have no id key, or the id of the target, or an id that no object of
  the present has, an imported snapshot with pairwise distinct ids.
\<close>

fun idRequestOk :: "EditorState \<Rightarrow> EditorAction \<Rightarrow> bool" where
  "idRequestOk state (ADD_OBJECT object) = (\<not> hasId (present state) (obj_id object))"
| "idRequestOk state (UPDATE_OBJECT i changes) =
     (case c_id changes of None \<Rightarrow> True | Some j \<Rightarrow> j = i \<or> \<not> hasId (present state) j)"
| "idRequestOk state (IMPORT_STATE p) = distinctIds (objects p)"
| "idRequestOk state a = True"

text \<open>An object with its lock flag set to false.\<close>

definition eraseLock :: "EditorObject \<Rightarrow> EditorObject" where
  "eraseLock ob = ob\<lparr> locked := False \<rparr>"

text \<open>A snapshot and a state with every lock flag set to false.\<close>

definition eraseLockSnapshot :: "EditorPresent \<Rightarrow> EditorPresent" where
  "eraseLockSnapshot p = p\<lparr> objects := map eraseLock (objects p) \<rparr>"

definition eraseLockState :: "EditorState \<Rightarrow> EditorState" where
  "eraseLockState state =
     \<lparr> past = map eraseLockSnapshot (past state),
       present = eraseLockSnapshot (present state),
       future = map eraseLockSnapshot (future state) \<rparr>"

text \<open>Every number of a snapshot is finite, so that JSON text can denote it.\<close>

fun finiteNumber :: "number \<Rightarrow> bool" where
  "finiteNumber (Num r) = True"
| "finiteNumber n = False"

definition finiteOption :: "number option \<Rightarrow> bool" where
  "finiteOption v = (case v of None \<Rightarrow> True | Some n \<Rightarrow> finiteNumber n)"

definition finiteObject :: "EditorObject \<Rightarrow> bool" where
  "finiteObject ob =
     (finiteNumber (obj_x ob) \<and> finiteNumber (obj_y ob) \<and> finiteNumber (width ob) \<and>
      finiteNumber (height ob) \<and> finiteNumber (rotation ob) \<and> finiteNumber (zIndex ob) \<and>
      finiteOption (scaleX ob) \<and> finiteOption (scaleY ob) \<and> finiteOption (strokeWidth ob) \<and>
      finiteNumber (opacity ob) \<and> finiteOption (fontSize ob) \<and>
      (case points ob of None \<Rightarrow> True | Some ps \<Rightarrow> list_all finiteNumber ps))"

definition validSnapshot :: "EditorPresent \<Rightarrow> bool" where
  "validSnapshot p =
     (list_all finiteObject (objects p) \<and> finiteNumber (zoom p) \<and>
      finiteNumber (pan_x (pan p)) \<and> finiteNumber (pan_y (pan p)))"

section \<open>Properties\<close>

subsection \<open>Normalization\<close>

lemma length_normalizeZIndex [simp]: "length (normalizeZIndex objs) = length objs"
  by (simp add: normalizeZIndex_def)

lemma nth_normalizeZIndex:
  "k < length objs \<Longrightarrow> normalizeZIndex objs ! k = (objs ! k)\<lparr> zIndex := index_number k \<rparr>"
  by (simp add: normalizeZIndex_def nth_enumerate_eq)

lemma zIndex_normalizeZIndex: "zIndexNormalized (normalizeZIndex objs)"
  unfolding zIndexNormalized_def
  by (rule nth_equalityI) (simp_all add: nth_normalizeZIndex)

lemma normalizeZIndex_fixed:
  assumes "zIndexNormalized objs"
  shows "normalizeZIndex objs = objs"
proof (rule nth_equalityI)
  show "length (normalizeZIndex objs) = length objs" by simp
next
  fix k assume k: "k < length (normalizeZIndex objs)"
  then have "k < length objs" by simp
  moreover from assms have "map zIndex objs ! k = map index_number [0..<length objs] ! k"
    by (simp add: zIndexNormalized_def)
  ultimately have "zIndex (objs ! k) = index_number k" by simp
  with \<open>k < length objs\<close> show "normalizeZIndex objs ! k = objs ! k"
    by (simp add: nth_normalizeZIndex)
qed

lemma map_obj_id_normalizeZIndex [simp]: "map obj_id (normalizeZIndex objs) = map obj_id objs"
  by (rule nth_equalityI) (simp_all add: nth_normalizeZIndex)

lemma zIndexNormalized_initial: "zIndexNormalized initialRegions"
  by (simp add: zIndexNormalized_def initialRegions_def createRegion_def Let_def index_number_def upt_rec)

lemma normalizeZIndex_renumberFrom_aux:
  "map (\<lambda>(index, obj). obj\<lparr> zIndex := index_number index \<rparr>) (enumerate k objs) =
     renumberFrom k objs"
  by (induction objs arbitrary: k) (simp_all add: index_number_def)

lemma normalizeZIndex_renumberFrom: "normalizeZIndex objs = renumberFrom 0 objs"
  by (simp add: normalizeZIndex_def normalizeZIndex_renumberFrom_aux)



lemma list_all_last: "xs \<noteq> [] \<Longrightarrow> list_all P xs \<Longrightarrow> P (last xs)"
  by (simp add: list_all_iff)

lemma list_all_butlast: "list_all P xs \<Longrightarrow> list_all P (butlast xs)"
  by (auto simp: list_all_iff dest: in_set_butlastD)

lemma list_all_hd: "xs \<noteq> [] \<Longrightarrow> list_all P xs \<Longrightarrow> P (hd xs)"
  by (cases xs) simp_all

lemma list_all_tl: "list_all P xs \<Longrightarrow> list_all P (tl xs)"
  by (cases xs) simp_all

lemma everySnapshot_step:
  assumes inv: "everySnapshot P state"
    and new: "a \<noteq> UNDO \<Longrightarrow> a \<noteq> REDO \<Longrightarrow> P (present (editorReducer state a))"
  shows "everySnapshot P (editorReducer state a)"
proof (cases "a = UNDO \<or> a = REDO")
  case True
  then show ?thesis
  proof
    assume "a = UNDO"
    with inv show ?thesis
      by (simp add: everySnapshot_def Let_def list_all_last list_all_butlast)
  next
    assume "a = REDO"
    with inv show ?thesis
      by (simp add: everySnapshot_def Let_def list_all_hd list_all_tl)
  qed
next
  case False
  then have p: "P (present (editorReducer state a))" using new by simp
  have "list_all P (past (editorReducer state a)) \<and> list_all P (future (editorReducer state a))"
    using inv False
    by (cases a) (simp_all add: everySnapshot_def pushHistory_def Let_def split: option.splits)
  with p show ?thesis by (simp add: everySnapshot_def)
qed

lemma everySnapshot_run:
  assumes "everySnapshot P state"
    and "\<And>s a. a \<in> set actions \<Longrightarrow> a \<noteq> UNDO \<Longrightarrow> a \<noteq> REDO \<Longrightarrow> everySnapshot P s
           \<Longrightarrow> P (present (editorReducer s a))"
  shows "everySnapshot P (run state actions)"
  using assms unfolding run_def
proof (induction actions arbitrary: state)
  case Nil
  then show ?case by simp
next
  case (Cons a actions)
  have "everySnapshot P (editorReducer state a)"
    using Cons.prems by (intro everySnapshot_step) simp_all
  then show ?case using Cons.prems(2) by (simp add: Cons.IH)
qed

lemma snapshotNormalized_step:
  "a \<noteq> UNDO \<Longrightarrow> a \<noteq> REDO \<Longrightarrow> snapshotNormalized (present state)
     \<Longrightarrow> snapshotNormalized (present (editorReducer state a))"
  by (cases a)
     (simp_all add: snapshotNormalized_def pushHistory_def Let_def zIndex_normalizeZIndex
        initialPresent_def zIndexNormalized_initial split: option.splits)

subsection \<open>Undo and redo\<close>

text \<open>
  C1. When the past stack of a history state is not empty, undo followed by redo gives the
  state back: past, present and future are those of the start.
\<close>

theorem undo_redo_roundtrip:
  "past S \<noteq> [] \<Longrightarrow> editorReducer (editorReducer S UNDO) REDO = S"
  by (simp add: Let_def)

theorem undo_redo_roundtrip_witness:
  "past (editorReducer initialState (SET_PAN \<lparr> pan_x = Num 5, pan_y = Num 7 \<rparr>)) \<noteq> [] \<and>
   editorReducer
     (editorReducer (editorReducer initialState (SET_PAN \<lparr> pan_x = Num 5, pan_y = Num 7 \<rparr>)) UNDO)
     REDO
   = editorReducer initialState (SET_PAN \<lparr> pan_x = Num 5, pan_y = Num 7 \<rparr>)"
proof -
  have h: "past (editorReducer initialState (SET_PAN \<lparr> pan_x = Num 5, pan_y = Num 7 \<rparr>)) \<noteq> []"
    by (simp add: pushHistory_def)
  from undo_redo_roundtrip [OF h] h show ?thesis by simp
qed

subsection \<open>The normalization invariant\<close>

text \<open>
  C2. In every state reached from the initial state by any sequence of commands (so also
  after every single command applied to such a state), the z-indices of the objects of the
  present snapshot are 0, 1, ..., n - 1 in array order, n being the number of objects.
\<close>

theorem zIndex_dense_reachable:
  "map zIndex (objects (present (run initialState actions))) =
     map index_number [0..<length (objects (present (run initialState actions)))]"
proof -
  have "everySnapshot snapshotNormalized initialState"
    by (simp add: everySnapshot_def snapshotNormalized_def initialState_def initialPresent_def
          zIndexNormalized_initial)
  then have "everySnapshot snapshotNormalized (run initialState actions)"
    by (rule everySnapshot_run) (simp add: snapshotNormalized_step everySnapshot_def)
  then show ?thesis
    by (simp add: everySnapshot_def snapshotNormalized_def zIndexNormalized_def)
qed

theorem zIndex_dense_reachable_witness:
  "map zIndex (objects (present (run initialState
       [DELETE_OBJECT ''region-top'', SET_ZOOM (Num 2), UNDO, BRING_TO_FRONT ''region-bottom'']))) =
     map index_number [0, 1, 2]"
  using zIndex_dense_reachable
    [of "[DELETE_OBJECT ''region-top'', SET_ZOOM (Num 2), UNDO, BRING_TO_FRONT ''region-bottom'']"]
  by (simp add: run_def initialState_def initialPresent_def initialRegions_def createRegion_def
        pushHistory_def Let_def normalizeZIndex_def enumerate_eq_zip upt_rec index_number_def)

subsection \<open>Selection\<close>

text \<open>
  C8, as the code has it. A selection change leaves the past and future stacks as they are
  and changes nothing of the present snapshot but the selected id; a run of selection
  changes therefore adds no snapshot to the past or the future. (A history-producing
  command may still record a change of the selection and of nothing else, see below.)
\<close>

theorem set_selected_frame:
  "past (editorReducer S (SET_SELECTED i)) = past S \<and>
   future (editorReducer S (SET_SELECTED i)) = future S \<and>
   present (editorReducer S (SET_SELECTED i)) = (present S)\<lparr> selectedId := i \<rparr> \<and>
   past (run S (map SET_SELECTED ids)) = past S \<and>
   future (run S (map SET_SELECTED ids)) = future S"
proof -
  have "past (run T (map SET_SELECTED ids)) = past T \<and>
        future (run T (map SET_SELECTED ids)) = future T" for T
    unfolding run_def by (induction ids arbitrary: T) simp_all
  then show ?thesis by simp
qed

text \<open>
  A snapshot of the past can record a change of the selection alone. Select a region, then
  clear: all four initial objects are regions, so clear removes nothing and only resets the
  selection, and it pushes. The snapshot in the past is the present with the old selection,
  and undo restores that selection and nothing else.
\<close>

theorem selection_only_change_recorded:
  "past (run initialState [SET_SELECTED (Some ''region-top''), CLEAR]) =
     [(present (run initialState [SET_SELECTED (Some ''region-top''), CLEAR]))
        \<lparr> selectedId := Some ''region-top'' \<rparr>] \<and>
   selectedId (present (run initialState [SET_SELECTED (Some ''region-top''), CLEAR])) = None \<and>
   present (editorReducer (run initialState [SET_SELECTED (Some ''region-top''), CLEAR]) UNDO) =
     (present (run initialState [SET_SELECTED (Some ''region-top''), CLEAR]))
        \<lparr> selectedId := Some ''region-top'' \<rparr>"
proof -
  have r: "filter (\<lambda>ob. obj_type ob = T_region) initialRegions = initialRegions"
    by (simp add: initialRegions_def createRegion_def Let_def)
  have n: "normalizeZIndex initialRegions = initialRegions"
    by (rule normalizeZIndex_fixed) (rule zIndexNormalized_initial)
  show ?thesis
    by (simp add: run_def initialState_def initialPresent_def pushHistory_def r n)
qed

subsection \<open>Regions\<close>

text \<open>
  C9, as the code has it. Building a region from an empty point sequence returns a region
  (no error is raised), and its width and height are both minus infinity: the minimum of
  no number is plus infinity, the maximum minus infinity, and their difference is minus
  infinity.
\<close>

theorem createRegion_empty_points:
  "width (createRegion i nm [] fl z) = NegInfinity \<and>
   height (createRegion i nm [] fl z) = NegInfinity"
  by (simp add: createRegion_def getBoundsFromPoints_def Math_min_spread_def
        Math_max_spread_def)

text \<open>The region of an empty point sequence is not of size zero.\<close>

theorem createRegion_empty_points_not_zero:
  "\<not> (width (createRegion ''r'' ''R'' [] ''#ffffff'' (Num 0)) = Num 0 \<and>
      height (createRegion ''r'' ''R'' [] ''#ffffff'' (Num 0)) = Num 0)"
  by (simp add: createRegion_def getBoundsFromPoints_def Math_min_spread_def
        Math_max_spread_def)

subsection \<open>History-producing commands\<close>







lemma initial_ids:
  "map obj_id (objects (present initialState)) =
     [''region-top'', ''region-bottom'', ''region-left-strap'', ''region-right-strap'']"
  by (simp add: initialState_def initialPresent_def initialRegions_def createRegion_def Let_def)

lemma initial_misses: "\<not> hasId (present initialState) ''missing''"
  by (simp add: hasId_def initial_ids)



lemma map_no_match:
  "\<not> hasId p i \<Longrightarrow> map (\<lambda>obj. if obj_id obj = i then f obj else obj) (objects p) = objects p"
  unfolding hasId_def by (intro map_idI) auto

text \<open>
  C4, as the code has it. For an id that matches no object of the present snapshot, update,
  set-visibility and set-lock raise no error and change no object apart from renormalizing
  the z-indices (so the present is unchanged when it was normalized); as every
  history-producing command they push the old present onto the past and empty the future.
\<close>

theorem missing_id_update_pushes:
  assumes "\<not> hasId (present S) i"
    and "a = UPDATE_OBJECT i ch \<or> a = SET_VISIBILITY i v \<or> a = SET_LOCK i l"
  shows "editorReducer S a =
           \<lparr> past = past S @ [present S],
             present = (present S)\<lparr> objects := normalizeZIndex (objects (present S)) \<rparr>,
             future = [] \<rparr> \<and>
         (zIndexNormalized (objects (present S)) \<longrightarrow> present (editorReducer S a) = present S)"
proof -
  have "editorReducer S a =
           \<lparr> past = past S @ [present S],
             present = (present S)\<lparr> objects := normalizeZIndex (objects (present S)) \<rparr>,
             future = [] \<rparr>"
    using assms(2) by (auto simp: pushHistory_def map_no_match [OF assms(1)])
  then show ?thesis by (simp add: normalizeZIndex_fixed)
qed

theorem missing_id_update_pushes_witness:
  "\<not> hasId (present initialState) ''missing'' \<and>
   editorReducer initialState (SET_LOCK ''missing'' True) =
     \<lparr> past = [present initialState], present = present initialState, future = [] \<rparr>"
proof -
  have n: "zIndexNormalized (objects (present initialState))"
    by (simp add: initialState_def initialPresent_def zIndexNormalized_initial)
  have p: "past initialState = []" by (simp add: initialState_def)
  from missing_id_update_pushes
         [OF initial_misses, of "SET_LOCK ''missing'' True" noChanges True True]
  show ?thesis using n p initial_misses by (simp add: normalizeZIndex_fixed)
qed

text \<open>
  An update with an id that no object has does not leave the state unchanged: the past
  grows by one snapshot.
\<close>

theorem missing_id_update_changes_history:
  "\<not> hasId (present initialState) ''missing'' \<and>
   past (editorReducer initialState (UPDATE_OBJECT ''missing'' noChanges)) \<noteq> past initialState"
  by (simp add: initial_misses pushHistory_def)

subsection \<open>Zoom\<close>

lemma clamp_in_range: "z \<noteq> NaN \<Longrightarrow> zoomInRange (clamp z (Num 0.2) (Num 4))"
  by (cases z) (auto simp: clamp_def min_def max_def)

lemma clamp_in_range_normal: "z \<noteq> NaN \<Longrightarrow> zoomInRange (clamp z (Num (1 / 5)) (Num 4))"
  using clamp_in_range [of z] by simp

lemma snapshotZoomInRange_step:
  "a \<noteq> UNDO \<Longrightarrow> a \<noteq> REDO \<Longrightarrow> zoomRequestOk a \<Longrightarrow> snapshotZoomInRange (present state)
     \<Longrightarrow> snapshotZoomInRange (present (editorReducer state a))"
  by (cases a)
     (simp_all add: snapshotZoomInRange_def pushHistory_def Let_def clamp_in_range_normal
        initialPresent_def split: option.splits)

text \<open>
  C6, as the code has it. Set-zoom and set-viewport store clamp(requested, 0.2, 4), which
  lies in the closed interval from 0.2 to 4 unless the request is NaN; import stores the
  zoom of the supplied snapshot as it is, unclamped. So in every state reached from the initial state
  by commands whose zoom requests are not NaN and whose imported snapshots have a zoom in
  range, the zoom of the present lies in the interval.
\<close>

theorem zoom_in_range_reachable:
  "(list_all zoomRequestOk actions \<longrightarrow>
      zoomInRange (zoom (present (run initialState actions)))) \<and>
   zoom (present (editorReducer S (SET_ZOOM z))) = clamp z (Num 0.2) (Num 4) \<and>
   zoom (present (editorReducer S (SET_VIEWPORT z p))) = clamp z (Num 0.2) (Num 4) \<and>
   (z \<noteq> NaN \<longrightarrow> zoomInRange (clamp z (Num 0.2) (Num 4))) \<and>
   zoom (present (editorReducer S (IMPORT_STATE q))) = zoom q"
proof -
  have "zoomInRange (zoom (present (run initialState actions)))"
    if ok: "list_all zoomRequestOk actions"
  proof -
    have "everySnapshot snapshotZoomInRange initialState"
      by (simp add: everySnapshot_def snapshotZoomInRange_def initialState_def
            initialPresent_def)
    then have "everySnapshot snapshotZoomInRange (run initialState actions)"
    proof (rule everySnapshot_run)
      fix s a
      assume "a \<in> set actions" "a \<noteq> UNDO" "a \<noteq> REDO" "everySnapshot snapshotZoomInRange s"
      with ok show "snapshotZoomInRange (present (editorReducer s a))"
        by (intro snapshotZoomInRange_step) (simp_all add: list_all_iff everySnapshot_def)
    qed
    then show ?thesis by (simp add: everySnapshot_def snapshotZoomInRange_def)
  qed
  then show ?thesis by (simp add: pushHistory_def clamp_in_range_normal)
qed

theorem zoom_in_range_reachable_witness:
  "list_all zoomRequestOk [SET_ZOOM (Num 10), SET_VIEWPORT (Num (-1)) \<lparr> pan_x = Num 3, pan_y = Num 4 \<rparr>, UNDO] \<and>
   zoom (present (run initialState
     [SET_ZOOM (Num 10), SET_VIEWPORT (Num (-1)) \<lparr> pan_x = Num 3, pan_y = Num 4 \<rparr>, UNDO])) = Num 4 \<and>
   zoomInRange (Num 4) \<and> Num 10 \<noteq> NaN \<and> clamp (Num 10) (Num 0.2) (Num 4) = Num 4 \<and>
   zoom (present (editorReducer initialState (IMPORT_STATE (initialPresent\<lparr> zoom := Num 3 \<rparr>))))
     = Num 3"
  using zoom_in_range_reachable
    [of "[SET_ZOOM (Num 10), SET_VIEWPORT (Num (-1)) \<lparr> pan_x = Num 3, pan_y = Num 4 \<rparr>, UNDO]"
        initialState "Num 10" "\<lparr> pan_x = Num 3, pan_y = Num 4 \<rparr>"
        "initialPresent\<lparr> zoom := Num 3 \<rparr>"]
  by (simp add: run_def pushHistory_def clamp_def)

text \<open>
  An imported zoom of 10 is stored as it is, and a NaN zoom request is stored as NaN.
\<close>

theorem zoom_out_of_range_reachable:
  "\<not> zoomInRange (zoom (present (run initialState
        [IMPORT_STATE (initialPresent\<lparr> zoom := Num 10 \<rparr>)]))) \<and>
   \<not> zoomInRange (zoom (present (run initialState [SET_ZOOM NaN])))"
  by (simp add: run_def pushHistory_def clamp_def)

subsection \<open>Identifiers\<close>

lemma distinctIds_normalizeZIndex [simp]:
  "distinctIds (normalizeZIndex objs) = distinctIds objs"
  by (simp add: distinctIds_def)

lemma distinctIds_filter: "distinctIds objs \<Longrightarrow> distinctIds (filter P objs)"
  by (simp add: distinctIds_def distinct_map_filter)

lemma find_Some_id:
  "find (\<lambda>ob. obj_id ob = i) objs = Some target \<Longrightarrow> obj_id target = i"
  by (auto simp: find_Some_iff)

lemma distinctIds_reorder:
  assumes "distinctIds objs" "find (\<lambda>ob. obj_id ob = i) objs = Some target"
  shows "distinctIds (filter (\<lambda>ob. obj_id ob \<noteq> i) objs @ [target])"
    and "distinctIds (target # filter (\<lambda>ob. obj_id ob \<noteq> i) objs)"
  using assms find_Some_id [OF assms(2)]
  by (auto simp: distinctIds_def distinct_map_filter)

lemma distinctIds_set_flag:
  "(\<And>ob. obj_id (f ob) = obj_id ob) \<Longrightarrow>
   distinctIds (map (\<lambda>obj. if obj_id obj = i then f obj else obj) objs) = distinctIds objs"
proof -
  assume f: "\<And>ob. obj_id (f ob) = obj_id ob"
  have eq: "map obj_id (map (\<lambda>obj. if obj_id obj = i then f obj else obj) objs) = map obj_id objs"
    by (induction objs) (simp_all add: f)
  show ?thesis unfolding distinctIds_def eq by (rule refl)
qed

lemma obj_id_applyChanges: "obj_id (applyChanges ob ch) = spread (obj_id ob) (c_id ch)"
  by (simp add: applyChanges_def)

lemma distinctIds_update:
  assumes d: "distinctIds objs"
    and ok: "case c_id ch of None \<Rightarrow> True | Some j \<Rightarrow> j = i \<or> (\<forall>ob \<in> set objs. obj_id ob \<noteq> j)"
  shows "distinctIds (map (\<lambda>obj. if obj_id obj = i then applyChanges obj ch else obj) objs)"
proof (cases "c_id ch")
  case None
  then have "\<And>ob. obj_id (applyChanges ob ch) = obj_id ob"
    by (simp add: obj_id_applyChanges spread_def)
  then show ?thesis using d by (simp add: distinctIds_set_flag)
next
  case (Some j)
  have eq: "map obj_id (map (\<lambda>obj. if obj_id obj = i then applyChanges obj ch else obj) objs)
          = map (\<lambda>k. if k = i then j else k) (map obj_id objs)"
    by (induction objs) (simp_all add: obj_id_applyChanges spread_def Some)
  from ok Some have "j = i \<or> (\<forall>ob \<in> set objs. obj_id ob \<noteq> j)" by simp
  then have inj: "inj_on (\<lambda>k. if k = i then j else k) (set (map obj_id objs))"
    by (auto simp: inj_on_def)
  have "distinct (map (\<lambda>k. if k = i then j else k) (map obj_id objs))"
    by (rule distinct_map [THEN iffD2]) (use d inj in \<open>simp add: distinctIds_def\<close>)
  then show ?thesis
    unfolding distinctIds_def eq .
qed

lemma distinctIds_initial: "distinctIds initialRegions"
  by (simp add: distinctIds_def initialRegions_def createRegion_def Let_def)

lemma snapshotDistinctIds_step:
  assumes "a \<noteq> UNDO" "a \<noteq> REDO" "idRequestOk state a" "snapshotDistinctIds (present state)"
  shows "snapshotDistinctIds (present (editorReducer state a))"
proof (cases a)
  case (ADD_OBJECT ob)
  with assms show ?thesis
    by (simp add: snapshotDistinctIds_def pushHistory_def Let_def hasId_def distinctIds_def)
next
  case (UPDATE_OBJECT i ch)
  with assms have "case c_id ch of None \<Rightarrow> True
      | Some j \<Rightarrow> j = i \<or> (\<forall>ob \<in> set (objects (present state)). obj_id ob \<noteq> j)"
    by (auto simp: hasId_def split: option.splits)
  with assms UPDATE_OBJECT show ?thesis
    by (simp add: snapshotDistinctIds_def pushHistory_def Let_def distinctIds_update)
next
  case (BRING_TO_FRONT i)
  with assms show ?thesis
    by (simp add: snapshotDistinctIds_def pushHistory_def Let_def distinctIds_reorder
          split: option.splits)
next
  case (SEND_TO_BACK i)
  with assms show ?thesis
    by (simp add: snapshotDistinctIds_def pushHistory_def Let_def distinctIds_reorder
          split: option.splits)
qed (use assms in \<open>simp_all add: snapshotDistinctIds_def pushHistory_def Let_def
       distinctIds_filter distinctIds_set_flag initialPresent_def distinctIds_initial\<close>)

text \<open>
  C7, as the code has it. The reducer checks no id. If the ids of the objects are pairwise
  distinct in every snapshot of a state (the present and each snapshot of the past and the
  future), then they are so in every snapshot of the state after a command, provided an
  add supplies an object whose id no object of the present has, an update supplies changes
  without id, or with the id of its target, or with an id no object of the present has, and
  an import supplies objects with pairwise distinct ids.
\<close>

theorem distinct_ids_preserved:
  "everySnapshot snapshotDistinctIds S \<Longrightarrow> idRequestOk S a \<Longrightarrow>
   everySnapshot snapshotDistinctIds (editorReducer S a)"
  by (rule everySnapshot_step) (simp_all add: snapshotDistinctIds_step everySnapshot_def)

theorem distinct_ids_preserved_witness:
  "everySnapshot snapshotDistinctIds initialState \<and>
   idRequestOk initialState (ADD_OBJECT (createRegion ''region-new'' ''New'' [] ''#ffffff'' (Num 0))) \<and>
   everySnapshot snapshotDistinctIds
     (editorReducer initialState
        (ADD_OBJECT (createRegion ''region-new'' ''New'' [] ''#ffffff'' (Num 0))))"
proof -
  have i: "everySnapshot snapshotDistinctIds initialState"
    by (simp add: everySnapshot_def snapshotDistinctIds_def initialState_def initialPresent_def
          distinctIds_initial)
  have r: "idRequestOk initialState
             (ADD_OBJECT (createRegion ''region-new'' ''New'' [] ''#ffffff'' (Num 0)))"
    by (simp add: hasId_def initial_ids) (simp add: createRegion_def Let_def)
  from distinct_ids_preserved [OF i r] i r show ?thesis by simp
qed

lemma ids_after_delete:
  "map obj_id (filter (\<lambda>obj. obj_id obj \<noteq> i) objs) = filter (\<lambda>k. k \<noteq> i) (map obj_id objs)"
  by (induction objs) simp_all

text \<open>
  Adding an object whose id is taken, or renaming an object to a taken id by an update,
  leaves two objects with one id; and undo brings such a snapshot back into a present whose
  ids were distinct.
\<close>

theorem duplicate_id_after_command:
  "distinctIds (objects (present initialState)) \<and>
   \<not> distinctIds (objects (present (editorReducer initialState
        (ADD_OBJECT (createRegion ''region-top'' ''Copy'' [] ''#ffffff'' (Num 0)))))) \<and>
   \<not> distinctIds (objects (present (editorReducer initialState
        (UPDATE_OBJECT ''region-top'' (noChanges\<lparr> c_id := Some ''region-bottom'' \<rparr>))))) \<and>
   distinctIds (objects (present (run initialState
        [ADD_OBJECT (createRegion ''region-top'' ''Copy'' [] ''#ffffff'' (Num 0)),
         DELETE_OBJECT ''region-top'']))) \<and>
   \<not> distinctIds (objects (present (editorReducer (run initialState
        [ADD_OBJECT (createRegion ''region-top'' ''Copy'' [] ''#ffffff'' (Num 0)),
         DELETE_OBJECT ''region-top'']) UNDO)))"
proof -
  have c: "obj_id (createRegion ''region-top'' ''Copy'' [] ''#ffffff'' (Num 0)) = ''region-top''"
    by (simp add: createRegion_def Let_def)
  have a: "distinctIds (objects (present initialState))"
    by (simp add: distinctIds_def initial_ids)
  have b: "\<not> distinctIds (objects (present (editorReducer initialState
        (ADD_OBJECT (createRegion ''region-top'' ''Copy'' [] ''#ffffff'' (Num 0))))))"
    by (simp add: distinctIds_def pushHistory_def Let_def initial_ids c)
  have u: "\<not> distinctIds (objects (present (editorReducer initialState
        (UPDATE_OBJECT ''region-top'' (noChanges\<lparr> c_id := Some ''region-bottom'' \<rparr>)))))"
    by (simp add: distinctIds_def pushHistory_def Let_def)
       (simp add: createRegion_def Let_def initialState_def initialPresent_def
          initialRegions_def applyChanges_def noChanges_def spread_def)
  have d: "distinctIds (objects (present (run initialState
        [ADD_OBJECT (createRegion ''region-top'' ''Copy'' [] ''#ffffff'' (Num 0)),
         DELETE_OBJECT ''region-top''])))"
    by (simp add: run_def distinctIds_def pushHistory_def Let_def ids_after_delete initial_ids c)
  have e: "\<not> distinctIds (objects (present (editorReducer (run initialState
        [ADD_OBJECT (createRegion ''region-top'' ''Copy'' [] ''#ffffff'' (Num 0)),
         DELETE_OBJECT ''region-top'']) UNDO)))"
    by (simp add: run_def distinctIds_def pushHistory_def Let_def initial_ids c)
  from a b u d e show ?thesis by blast
qed

subsection \<open>The lock flag\<close>

lemma eraseLock_normalizeZIndex:
  "map eraseLock (normalizeZIndex objs) = normalizeZIndex (map eraseLock objs)"
  by (rule nth_equalityI) (simp_all add: nth_normalizeZIndex eraseLock_def)

lemma eraseLock_applyChanges:
  "eraseLock (applyChanges ob ch) = eraseLock (applyChanges (eraseLock ob) ch)"
  by (simp add: eraseLock_def applyChanges_def)

lemma deleted_has_no_id:
  "\<not> hasId (p\<lparr> objects := normalizeZIndex (filter (\<lambda>obj. obj_id obj \<noteq> i) (objects p)),
                selectedId := sel \<rparr>) i"
  by (auto simp: hasId_def)

lemma eraseLock_fields [simp]:
  "obj_id (eraseLock ob) = obj_id ob"
  "obj_type (eraseLock ob) = obj_type ob"
  "eraseLock (eraseLock ob) = eraseLock ob"
  "eraseLock (ob\<lparr> locked := l \<rparr>) = eraseLock ob"
  "eraseLock (ob\<lparr> visible := v \<rparr>) = (eraseLock ob)\<lparr> visible := v \<rparr>"
  "eraseLock (ob\<lparr> zIndex := z \<rparr>) = (eraseLock ob)\<lparr> zIndex := z \<rparr>"
  by (simp_all add: eraseLock_def)

lemma eraseLock_map_update:
  "map eraseLock (map (\<lambda>obj. if obj_id obj = i then applyChanges obj ch else obj)
      (map eraseLock objs)) =
   map eraseLock (map (\<lambda>obj. if obj_id obj = i then applyChanges obj ch else obj) objs)"
  by (induction objs) (simp_all add: eraseLock_applyChanges [symmetric])

lemma eraseLock_map_visible:
  "map eraseLock (map (\<lambda>obj. if obj_id obj = i then obj\<lparr> visible := v \<rparr> else obj)
      (map eraseLock objs)) =
   map eraseLock (map (\<lambda>obj. if obj_id obj = i then obj\<lparr> visible := v \<rparr> else obj) objs)"
  by (induction objs) simp_all

lemma eraseLock_map_locked:
  "map eraseLock (map (\<lambda>obj. if obj_id obj = i then obj\<lparr> locked := l \<rparr> else obj)
      (map eraseLock objs)) =
   map eraseLock (map (\<lambda>obj. if obj_id obj = i then obj\<lparr> locked := l \<rparr> else obj) objs)"
  by (induction objs) simp_all

lemma eraseLock_filter_erased:
  "filter (\<lambda>ob. obj_id ob \<noteq> i) (map eraseLock objs) =
   map eraseLock (filter (\<lambda>ob. obj_id ob \<noteq> i) objs)"
  by (induction objs) simp_all

lemma eraseLock_filter_type:
  "filter (\<lambda>ob. obj_type ob = t) (map eraseLock objs) =
   map eraseLock (filter (\<lambda>ob. obj_type ob = t) objs)"
  by (induction objs) simp_all

lemma eraseLock_find:
  "find (\<lambda>ob. obj_id ob = i) (map eraseLock objs) =
   map_option eraseLock (find (\<lambda>ob. obj_id ob = i) objs)"
  by (induction objs) simp_all

lemma eraseLock_idem_list [simp]: "map eraseLock (map eraseLock objs) = map eraseLock objs"
  by (induction objs) simp_all

lemma eraseLockSnapshot_simps [simp]:
  "objects (eraseLockSnapshot p) = map eraseLock (objects p)"
  "selectedId (eraseLockSnapshot p) = selectedId p"
  "zoom (eraseLockSnapshot p) = zoom p"
  "pan (eraseLockSnapshot p) = pan p"
  "eraseLockSnapshot (eraseLockSnapshot p) = eraseLockSnapshot p"
  "eraseLockSnapshot (p\<lparr> selectedId := s \<rparr>) = (eraseLockSnapshot p)\<lparr> selectedId := s \<rparr>"
  "eraseLockSnapshot (p\<lparr> zoom := z \<rparr>) = (eraseLockSnapshot p)\<lparr> zoom := z \<rparr>"
  "eraseLockSnapshot (p\<lparr> pan := q \<rparr>) = (eraseLockSnapshot p)\<lparr> pan := q \<rparr>"
  "eraseLockSnapshot (p\<lparr> objects := objs \<rparr>) = p\<lparr> objects := map eraseLock objs \<rparr>"
  by (simp_all add: eraseLockSnapshot_def)

lemma eraseLockSnapshot_idem_list [simp]:
  "map eraseLockSnapshot (map eraseLockSnapshot ps) = map eraseLockSnapshot ps"
  by (induction ps) simp_all

lemma eraseLockState_simps [simp]:
  "past (eraseLockState S) = map eraseLockSnapshot (past S)"
  "present (eraseLockState S) = eraseLockSnapshot (present S)"
  "future (eraseLockState S) = map eraseLockSnapshot (future S)"
  by (simp_all add: eraseLockState_def)

lemma eraseLockState_push:
  "eraseLockState (pushHistory S p) =
     \<lparr> past = map eraseLockSnapshot (past S) @ [eraseLockSnapshot (present S)],
       present = eraseLockSnapshot p, future = [] \<rparr>"
  by (simp add: eraseLockState_def pushHistory_def)

lemma eraseLockState_idem [simp]: "eraseLockState (eraseLockState S) = eraseLockState S"
  by (simp add: eraseLockState_def)

lemma eraseLockState_step:
  "eraseLockState (editorReducer (eraseLockState S) a) = eraseLockState (editorReducer S a)"
proof (cases a)
  case (SET_SELECTED i)
  then show ?thesis by (simp add: eraseLockState_def)
next
  case (ADD_OBJECT ob)
  then show ?thesis
    by (simp add: eraseLockState_push Let_def eraseLock_normalizeZIndex del: map_map)
next
  case (UPDATE_OBJECT i ch)
  then show ?thesis
    by (simp add: eraseLockState_push Let_def eraseLock_normalizeZIndex eraseLock_map_update
          del: map_map)
next
  case (DELETE_OBJECT i)
  then show ?thesis
    by (simp add: eraseLockState_push Let_def eraseLock_normalizeZIndex eraseLock_filter_erased
          del: map_map)
next
  case (BRING_TO_FRONT i)
  then show ?thesis
    by (cases "find (\<lambda>ob. obj_id ob = i) (objects (present S))")
       (simp_all add: eraseLockState_push Let_def eraseLock_normalizeZIndex
          eraseLock_filter_erased eraseLock_find del: map_map)
next
  case (SEND_TO_BACK i)
  then show ?thesis
    by (cases "find (\<lambda>ob. obj_id ob = i) (objects (present S))")
       (simp_all add: eraseLockState_push Let_def eraseLock_normalizeZIndex
          eraseLock_filter_erased eraseLock_find del: map_map)
next
  case (SET_VISIBILITY i v)
  then show ?thesis
    by (simp add: eraseLockState_push Let_def eraseLock_normalizeZIndex eraseLock_map_visible
          del: map_map)
next
  case (SET_LOCK i l)
  then show ?thesis
    by (simp add: eraseLockState_push Let_def eraseLock_normalizeZIndex eraseLock_map_locked
          del: map_map)
next
  case (SET_ZOOM z)
  then show ?thesis by (simp add: eraseLockState_push Let_def)
next
  case (SET_VIEWPORT z q)
  then show ?thesis by (simp add: eraseLockState_push Let_def)
next
  case (SET_PAN q)
  then show ?thesis by (simp add: eraseLockState_push)
next
  case RESET
  then show ?thesis by simp
next
  case (IMPORT_STATE p)
  then show ?thesis by simp
next
  case UNDO
  then show ?thesis
    by (simp add: eraseLockState_def Let_def last_map map_butlast del: map_map)
next
  case REDO
  then show ?thesis
    by (simp add: eraseLockState_def Let_def hd_map map_tl del: map_map)
next
  case CLEAR
  then show ?thesis
    by (simp add: eraseLockState_push eraseLock_normalizeZIndex eraseLock_filter_type
          del: map_map)
qed

lemma lock_noninterference:
  assumes "eraseLockState S = eraseLockState T"
  shows "eraseLockState (editorReducer S a) = eraseLockState (editorReducer T a)"
proof -
  have "eraseLockState (editorReducer S a) = eraseLockState (editorReducer (eraseLockState S) a)"
    by (simp add: eraseLockState_step)
  also have "\<dots> = eraseLockState (editorReducer (eraseLockState T) a)"
    by (simp add: assms)
  also have "\<dots> = eraseLockState (editorReducer T a)"
    by (simp add: eraseLockState_step)
  finally show ?thesis .
qed

lemma eraseLock_set_lock:
  "map eraseLock (map (\<lambda>obj. if obj_id obj = i then obj\<lparr> locked := l \<rparr> else obj) objs) =
     map eraseLock objs"
  by (induction objs) simp_all

text \<open>
  C10. The reducer does not read the lock flag. (1) For every command: applied to two states
  that differ in nothing but lock flags (in any snapshot), it gives two states that again
  differ in nothing but lock flags; so a locked object is treated as the same object
  unlocked. (2) An update pushes the old present and merges the changes into every object
  with the id, locked or not: each key of the changes replaces the field, every other
  field is kept, and the z-index becomes the position. (3) A delete pushes the old present
  and removes every object with the id, locked or not.
\<close>

theorem locked_flag_not_consulted:
  assumes "eraseLockState S = eraseLockState T"
  shows "eraseLockState (editorReducer S a) = eraseLockState (editorReducer T a) \<and>
         editorReducer S (UPDATE_OBJECT i ch) =
           \<lparr> past = past S @ [present S],
             present = (present S)\<lparr> objects := renumberFrom 0
               (map (\<lambda>ob. if obj_id ob = i
                      then \<lparr> obj_id = (case c_id ch of None \<Rightarrow> obj_id ob | Some v \<Rightarrow> v),
                             obj_type = (case c_type ch of None \<Rightarrow> obj_type ob | Some v \<Rightarrow> v),
                             obj_name = (case c_name ch of None \<Rightarrow> obj_name ob | Some v \<Rightarrow> v),
                             obj_x = (case c_x ch of None \<Rightarrow> obj_x ob | Some v \<Rightarrow> v),
                             obj_y = (case c_y ch of None \<Rightarrow> obj_y ob | Some v \<Rightarrow> v),
                             width = (case c_width ch of None \<Rightarrow> width ob | Some v \<Rightarrow> v),
                             height = (case c_height ch of None \<Rightarrow> height ob | Some v \<Rightarrow> v),
                             rotation = (case c_rotation ch of None \<Rightarrow> rotation ob | Some v \<Rightarrow> v),
                             zIndex = (case c_zIndex ch of None \<Rightarrow> zIndex ob | Some v \<Rightarrow> v),
                             scaleX = (case c_scaleX ch of None \<Rightarrow> scaleX ob | Some v \<Rightarrow> v),
                             scaleY = (case c_scaleY ch of None \<Rightarrow> scaleY ob | Some v \<Rightarrow> v),
                             fill = (case c_fill ch of None \<Rightarrow> fill ob | Some v \<Rightarrow> v),
                             stroke = (case c_stroke ch of None \<Rightarrow> stroke ob | Some v \<Rightarrow> v),
                             strokeWidth =
                               (case c_strokeWidth ch of None \<Rightarrow> strokeWidth ob | Some v \<Rightarrow> v),
                             opacity = (case c_opacity ch of None \<Rightarrow> opacity ob | Some v \<Rightarrow> v),
                             visible = (case c_visible ch of None \<Rightarrow> visible ob | Some v \<Rightarrow> v),
                             locked = (case c_locked ch of None \<Rightarrow> locked ob | Some v \<Rightarrow> v),
                             patternId =
                               (case c_patternId ch of None \<Rightarrow> patternId ob | Some v \<Rightarrow> v),
                             points = (case c_points ch of None \<Rightarrow> points ob | Some v \<Rightarrow> v),
                             obj_text = (case c_text ch of None \<Rightarrow> obj_text ob | Some v \<Rightarrow> v),
                             fontSize = (case c_fontSize ch of None \<Rightarrow> fontSize ob | Some v \<Rightarrow> v),
                             fontFamily =
                               (case c_fontFamily ch of None \<Rightarrow> fontFamily ob | Some v \<Rightarrow> v),
                             align = (case c_align ch of None \<Rightarrow> align ob | Some v \<Rightarrow> v),
                             src = (case c_src ch of None \<Rightarrow> src ob | Some v \<Rightarrow> v) \<rparr>
                      else ob)
                  (objects (present S))) \<rparr>,
             future = [] \<rparr> \<and>
         editorReducer S (DELETE_OBJECT i) =
           \<lparr> past = past S @ [present S],
             present = (present S)
               \<lparr> objects := renumberFrom 0 (filter (\<lambda>ob. obj_id ob \<noteq> i) (objects (present S))),
                 selectedId := (if selectedId (present S) = Some i then None
                                else selectedId (present S)) \<rparr>,
             future = [] \<rparr> \<and>
         \<not> hasId (present (editorReducer S (DELETE_OBJECT i))) i"
proof -
  have "eraseLockState (editorReducer S a) = eraseLockState (editorReducer T a)"
    using assms by (rule lock_noninterference)
  moreover have "\<not> hasId (present (editorReducer S (DELETE_OBJECT i))) i"
    by (simp add: pushHistory_def Let_def deleted_has_no_id)
  moreover have "editorReducer S (DELETE_OBJECT i) =
           \<lparr> past = past S @ [present S],
             present = (present S)
               \<lparr> objects := renumberFrom 0 (filter (\<lambda>ob. obj_id ob \<noteq> i) (objects (present S))),
                 selectedId := (if selectedId (present S) = Some i then None
                                else selectedId (present S)) \<rparr>,
             future = [] \<rparr>"
    by (simp add: pushHistory_def Let_def normalizeZIndex_renumberFrom)
  ultimately show ?thesis
    unfolding editorReducer.simps(3) Let_def pushHistory_def normalizeZIndex_renumberFrom
      applyChanges_def spread_def
    by (intro conjI) (assumption | rule refl)+
qed

lemma map_renumberFrom [simp]:
  "map obj_id (renumberFrom k objs) = map obj_id objs"
  "map obj_x (renumberFrom k objs) = map obj_x objs"
  "map locked (renumberFrom k objs) = map locked objs"
  by (induction objs arbitrary: k) simp_all

theorem locked_flag_not_consulted_witness:
  "eraseLockState (editorReducer initialState (SET_LOCK ''region-top'' True)) =
     eraseLockState (editorReducer initialState (SET_LOCK ''region-top'' False)) \<and>
   eraseLockState
     (editorReducer (editorReducer initialState (SET_LOCK ''region-top'' True))
        (UPDATE_OBJECT ''region-top'' (noChanges\<lparr> c_x := Some (Num 5) \<rparr>))) =
   eraseLockState
     (editorReducer (editorReducer initialState (SET_LOCK ''region-top'' False))
        (UPDATE_OBJECT ''region-top'' (noChanges\<lparr> c_x := Some (Num 5) \<rparr>))) \<and>
   map obj_x (objects (present
     (editorReducer (editorReducer initialState (SET_LOCK ''region-top'' True))
        (UPDATE_OBJECT ''region-top'' (noChanges\<lparr> c_x := Some (Num 5) \<rparr>))))) =
     [Num 5, Num 0, Num 0, Num 0] \<and>
   map locked (objects (present
     (editorReducer (editorReducer initialState (SET_LOCK ''region-top'' True))
        (UPDATE_OBJECT ''region-top'' (noChanges\<lparr> c_x := Some (Num 5) \<rparr>))))) =
     [True, False, False, False] \<and>
   map obj_id (objects (present
     (editorReducer (editorReducer initialState (SET_LOCK ''region-top'' True))
        (DELETE_OBJECT ''region-top'')))) =
     [''region-bottom'', ''region-left-strap'', ''region-right-strap'']"
proof -
  let ?S = "editorReducer initialState (SET_LOCK ''region-top'' True)"
  let ?T = "editorReducer initialState (SET_LOCK ''region-top'' False)"
  let ?ch = "noChanges\<lparr> c_x := Some (Num 5) \<rparr>"
  have h: "eraseLockState ?S = eraseLockState ?T"
    by (simp add: eraseLockState_push eraseLock_normalizeZIndex eraseLock_set_lock del: map_map)
  note t = locked_flag_not_consulted
    [OF h, of "UPDATE_OBJECT ''region-top'' ?ch" "''region-top''" ?ch]
  note defs = pushHistory_def initialState_def initialPresent_def initialRegions_def
    createRegion_def Let_def normalizeZIndex_def enumerate_eq_zip upt_rec index_number_def
    noChanges_def
  have c1: "eraseLockState (editorReducer ?S (UPDATE_OBJECT ''region-top'' ?ch)) =
            eraseLockState (editorReducer ?T (UPDATE_OBJECT ''region-top'' ?ch))"
    by (rule t [THEN conjunct1])
  have c2: "map obj_x (objects (present (editorReducer ?S (UPDATE_OBJECT ''region-top'' ?ch)))) =
      [Num 5, Num 0, Num 0, Num 0]"
    by (subst t [THEN conjunct2, THEN conjunct1]) (simp add: defs)
  have c3: "map locked (objects (present (editorReducer ?S (UPDATE_OBJECT ''region-top'' ?ch)))) =
      [True, False, False, False]"
    by (subst t [THEN conjunct2, THEN conjunct1]) (simp add: defs)
  have c4: "map obj_id (objects (present (editorReducer ?S (DELETE_OBJECT ''region-top'')))) =
      [''region-bottom'', ''region-left-strap'', ''region-right-strap'']"
    by (subst t [THEN conjunct2, THEN conjunct2, THEN conjunct1]) (simp add: defs)
  from h c1 c2 c3 c4 show ?thesis by blast
qed

subsection \<open>Serialization round trip\<close>

lemma jsonNumber_finite: "finiteNumber n \<Longrightarrow> jsonNumber n = JNumber n"
  by (cases n) simp_all

lemma jsonNumber_defined [simp]: "jsonNumber n \<noteq> JUndefined"
  by (cases n) simp_all

lemma jsonNumber_finites:
  "list_all finiteNumber ps \<Longrightarrow>
   map (\<lambda>v. if v = JUndefined then JNull else v) (map jsonOf (map JNumber ps)) = map JNumber ps"
  by (induction ps) (simp_all add: jsonNumber_finite)

lemma json_optProp_number:
  "finiteOption v \<Longrightarrow>
   filter (\<lambda>kv. snd kv \<noteq> JUndefined) (map (map_prod id jsonOf) (optProp k JNumber v)) =
     optProp k JNumber v"
  by (cases v) (simp_all add: optProp_def finiteOption_def jsonNumber_finite)

lemma json_optProp_string:
  "filter (\<lambda>kv. snd kv \<noteq> JUndefined) (map (map_prod id jsonOf) (optProp k JString v)) =
     optProp k JString v"
  by (cases v) (simp_all add: optProp_def)

lemma json_optProp_align:
  "filter (\<lambda>kv. snd kv \<noteq> JUndefined)
     (map (map_prod id jsonOf) (optProp k (\<lambda>a. JString (alignName a)) v)) =
     optProp k (\<lambda>a. JString (alignName a)) v"
  by (cases v) (simp_all add: optProp_def)

lemma json_optProp_points:
  "(case v of None \<Rightarrow> True | Some ps \<Rightarrow> list_all finiteNumber ps) \<Longrightarrow>
   filter (\<lambda>kv. snd kv \<noteq> JUndefined)
     (map (map_prod id jsonOf) (optProp k (\<lambda>ps. JArray (map JNumber ps)) v)) =
     optProp k (\<lambda>ps. JArray (map JNumber ps)) v"
  using jsonNumber_finites by (cases v) (simp_all add: optProp_def del: map_map)

lemma jsonOf_objectValue: "finiteObject ob \<Longrightarrow> jsonOf (objectValue ob) = objectValue ob"
  by (simp add: objectValue_def objectProps_def finiteObject_def jsonNumber_finite
        json_optProp_number json_optProp_string json_optProp_align json_optProp_points)

lemma jsonOf_objectValues:
  "list_all finiteObject objs \<Longrightarrow>
   map (\<lambda>v. if v = JUndefined then JNull else v) (map jsonOf (map objectValue objs)) =
     map objectValue objs"
  by (induction objs) (simp_all add: jsonOf_objectValue, simp add: objectValue_def)

lemma jsonOf_presentValue: "validSnapshot p \<Longrightarrow> jsonOf (presentValue p) = presentValue p"
  using jsonOf_objectValues [of "objects p"]
  by (simp add: presentValue_def validSnapshot_def jsonNumber_finite del: map_map
        split: option.splits)

lemma map_setProp_optProp:
  "k \<noteq> k' \<Longrightarrow> map (\<lambda>kv. if fst kv = k' then (k', v) else kv) (optProp k f x) = optProp k f x"
  by (cases x) (simp_all add: optProp_def)

lemma setProp_zIndex:
  "setProp ''zIndex'' (JNumber z) (objectProps ob) = objectProps (ob\<lparr> zIndex := z \<rparr>)"
  by (simp add: setProp_def objectProps_def map_setProp_optProp)

lemma normalizeZIndexValue_objects_aux:
  "map (\<lambda>(index, obj). JObject (setProp ''zIndex'' (JNumber (index_number index))
                                   (spreadValue obj)))
     (enumerate k (map objectValue objs)) =
   map objectValue (renumberFrom k objs)"
  by (induction objs arbitrary: k)
     (simp_all add: objectValue_def setProp_zIndex index_number_def)

lemma normalizeZIndexValue_objects:
  "normalizeZIndexValue (JArray (map objectValue objs)) =
     Inr (JArray (map objectValue (renumberFrom 0 objs)))"
  by (simp add: normalizeZIndexValue_objects_aux del: map_map)

text \<open>
  On the values of typed objects, \<^verbatim>\<open>normalizeZIndex\<close> as \<^verbatim>\<open>parseState\<close> runs
  it is \<^verbatim>\<open>normalizeZIndex\<close> as the reducer runs it.
\<close>

lemma normalizeZIndexValue_typed:
  "normalizeZIndexValue (JArray (map objectValue objs)) =
     Inr (JArray (map objectValue (normalizeZIndex objs)))"
  by (simp only: normalizeZIndexValue_objects normalizeZIndex_renumberFrom)

lemma parseState_presentValue:
  "parseState (Wellformed (presentValue p)) =
     Inr (presentValue (p\<lparr> objects := renumberFrom 0 (objects p) \<rparr>))"
proof -
  have set_objects: "setProp ''objects'' v [(''objects'', a), (''selectedId'', b), (''zoom'', c), (''pan'', d)]
      = [(''objects'', v), (''selectedId'', b), (''zoom'', c), (''pan'', d)]" for v a b c d
    by (simp add: setProp_def)
  show ?thesis
    by (simp add: parseState_def JSON_parse_def nullish_def presentValue_def
          normalizeZIndexValue_objects set_objects
          del: map_map normalizeZIndexValue.simps)
qed

lemma parseState_malformed: "parseState Malformed = Inl SyntaxError"
  by (simp add: parseState_def JSON_parse_def)

lemma parseState_null: "parseState (Wellformed JNull) = Inl TypeError"
  by (simp add: parseState_def JSON_parse_def)

lemma parseState_objects_no_array:
  "parseState (Wellformed (JObject [(''objects'', JNumber (Num 5))])) = Inl TypeError"
  by (simp add: parseState_def JSON_parse_def nullish_def)

lemma parseState_number:
  "parseState (Wellformed (JNumber (Num 5))) = Inr (JObject [(''objects'', JArray [])])"
  by (simp add: parseState_def JSON_parse_def nullish_def setProp_def)

lemma map_of_optProp:
  "map_of (optProp k f v) k' = (if k = k' then map_option f v else None)"
  by (cases v) (simp_all add: optProp_def)

lemma map_of_optProp_append:
  "k \<noteq> k' \<Longrightarrow> map_of (optProp k f v @ rest) k' = map_of rest k'"
  "map_of rest k = None \<Longrightarrow> map_of (optProp k f v @ rest) k = map_option f v"
  by (cases v; simp add: optProp_def)+

lemma objectProps_lookup:
  "map_of (objectProps ob) ''id'' = Some (JString (obj_id ob))"
  "map_of (objectProps ob) ''type'' = Some (JString (objectTypeName (obj_type ob)))"
  "map_of (objectProps ob) ''name'' = Some (JString (obj_name ob))"
  "map_of (objectProps ob) ''x'' = Some (JNumber (obj_x ob))"
  "map_of (objectProps ob) ''y'' = Some (JNumber (obj_y ob))"
  "map_of (objectProps ob) ''width'' = Some (JNumber (width ob))"
  "map_of (objectProps ob) ''height'' = Some (JNumber (height ob))"
  "map_of (objectProps ob) ''rotation'' = Some (JNumber (rotation ob))"
  "map_of (objectProps ob) ''zIndex'' = Some (JNumber (zIndex ob))"
  "map_of (objectProps ob) ''scaleX'' = map_option JNumber (scaleX ob)"
  "map_of (objectProps ob) ''scaleY'' = map_option JNumber (scaleY ob)"
  "map_of (objectProps ob) ''fill'' = map_option JString (fill ob)"
  "map_of (objectProps ob) ''stroke'' = map_option JString (stroke ob)"
  "map_of (objectProps ob) ''strokeWidth'' = map_option JNumber (strokeWidth ob)"
  "map_of (objectProps ob) ''opacity'' = Some (JNumber (opacity ob))"
  "map_of (objectProps ob) ''visible'' = Some (JBool (visible ob))"
  "map_of (objectProps ob) ''locked'' = Some (JBool (locked ob))"
  "map_of (objectProps ob) ''patternId'' = map_option JString (patternId ob)"
  "map_of (objectProps ob) ''points'' = map_option (\<lambda>ps. JArray (map JNumber ps)) (points ob)"
  "map_of (objectProps ob) ''text'' = map_option JString (obj_text ob)"
  "map_of (objectProps ob) ''fontSize'' = map_option JNumber (fontSize ob)"
  "map_of (objectProps ob) ''fontFamily'' = map_option JString (fontFamily ob)"
  "map_of (objectProps ob) ''align'' = map_option (\<lambda>a. JString (alignName a)) (align ob)"
  "map_of (objectProps ob) ''src'' = map_option JString (src ob)"
  by (simp_all add: objectProps_def map_of_optProp map_of_optProp_append del: map_of_append)

lemma objectTypeName_inject: "objectTypeName a = objectTypeName b \<Longrightarrow> a = b"
  by (cases a; cases b) simp_all

lemma alignName_inject: "alignName a = alignName b \<Longrightarrow> a = b"
  by (cases a; cases b) simp_all

lemma map_option_inject:
  "map_option JNumber u = map_option JNumber v \<Longrightarrow> u = v"
  "map_option JString s = map_option JString t \<Longrightarrow> s = t"
  "map_option (\<lambda>ps. JArray (map JNumber ps)) ps = map_option (\<lambda>ps. JArray (map JNumber ps)) qs
     \<Longrightarrow> ps = qs"
  "map_option (\<lambda>a. JString (alignName a)) al = map_option (\<lambda>a. JString (alignName a)) ar
     \<Longrightarrow> al = ar"
proof -
  show "map_option JNumber u = map_option JNumber v \<Longrightarrow> u = v"
    by (cases u; cases v) simp_all
  show "map_option JString s = map_option JString t \<Longrightarrow> s = t"
    by (cases s; cases t) simp_all
  have inj: "map JNumber xs = map JNumber ys \<Longrightarrow> xs = ys" for xs ys
    by (induction xs arbitrary: ys) auto
  show "map_option (\<lambda>ps. JArray (map JNumber ps)) ps = map_option (\<lambda>ps. JArray (map JNumber ps)) qs
     \<Longrightarrow> ps = qs"
    by (cases ps; cases qs) (auto dest: inj)
  show "map_option (\<lambda>a. JString (alignName a)) al = map_option (\<lambda>a. JString (alignName a)) ar
     \<Longrightarrow> al = ar"
    by (cases al; cases ar) (auto dest: alignName_inject)
qed

lemma objectValue_inject:
  assumes "objectValue a = objectValue b"
  shows "a = b"
proof -
  from assms have eq: "map_of (objectProps a) k = map_of (objectProps b) k" for k
    by (simp add: objectValue_def)
  have "obj_id a = obj_id b" using eq [of "''id''"] by (simp add: objectProps_lookup)
  moreover have "obj_type a = obj_type b"
    using eq [of "''type''"] by (simp add: objectProps_lookup objectTypeName_inject)
  moreover have "obj_name a = obj_name b"
    using eq [of "''name''"] by (simp add: objectProps_lookup)
  moreover have "obj_x a = obj_x b" using eq [of "''x''"] by (simp add: objectProps_lookup)
  moreover have "obj_y a = obj_y b" using eq [of "''y''"] by (simp add: objectProps_lookup)
  moreover have "width a = width b" using eq [of "''width''"] by (simp add: objectProps_lookup)
  moreover have "height a = height b"
    using eq [of "''height''"] by (simp add: objectProps_lookup)
  moreover have "rotation a = rotation b"
    using eq [of "''rotation''"] by (simp add: objectProps_lookup)
  moreover have "zIndex a = zIndex b"
    using eq [of "''zIndex''"] by (simp add: objectProps_lookup)
  moreover have "scaleX a = scaleX b"
    using eq [of "''scaleX''"] by (simp only: objectProps_lookup) (rule map_option_inject)
  moreover have "scaleY a = scaleY b"
    using eq [of "''scaleY''"] by (simp only: objectProps_lookup) (rule map_option_inject)
  moreover have "fill a = fill b"
    using eq [of "''fill''"] by (simp only: objectProps_lookup) (rule map_option_inject)
  moreover have "stroke a = stroke b"
    using eq [of "''stroke''"] by (simp only: objectProps_lookup) (rule map_option_inject)
  moreover have "strokeWidth a = strokeWidth b"
    using eq [of "''strokeWidth''"] by (simp only: objectProps_lookup) (rule map_option_inject)
  moreover have "opacity a = opacity b"
    using eq [of "''opacity''"] by (simp add: objectProps_lookup)
  moreover have "visible a = visible b"
    using eq [of "''visible''"] by (simp add: objectProps_lookup)
  moreover have "locked a = locked b"
    using eq [of "''locked''"] by (simp add: objectProps_lookup)
  moreover have "patternId a = patternId b"
    using eq [of "''patternId''"] by (simp only: objectProps_lookup) (rule map_option_inject)
  moreover have "points a = points b"
    using eq [of "''points''"] by (simp only: objectProps_lookup) (rule map_option_inject)
  moreover have "obj_text a = obj_text b"
    using eq [of "''text''"] by (simp only: objectProps_lookup) (rule map_option_inject)
  moreover have "fontSize a = fontSize b"
    using eq [of "''fontSize''"] by (simp only: objectProps_lookup) (rule map_option_inject)
  moreover have "fontFamily a = fontFamily b"
    using eq [of "''fontFamily''"] by (simp only: objectProps_lookup) (rule map_option_inject)
  moreover have "align a = align b"
    using eq [of "''align''"] by (simp only: objectProps_lookup) (rule map_option_inject)
  moreover have "src a = src b"
    using eq [of "''src''"] by (simp only: objectProps_lookup) (rule map_option_inject)
  ultimately show ?thesis by (cases a, cases b) simp
qed

lemma objectValues_inject: "map objectValue xs = map objectValue ys \<Longrightarrow> xs = ys"
proof (induction xs arbitrary: ys)
  case Nil
  then show ?case by simp
next
  case (Cons x xs)
  then show ?case by (cases ys) (auto dest: objectValue_inject)
qed

lemma presentValue_inject:
  assumes "presentValue p = presentValue q"
  shows "p = q"
proof -
  from assms have "objects p = objects q"
    by (simp add: presentValue_def objectValues_inject del: map_map)
  moreover from assms have "selectedId p = selectedId q"
    by (cases "selectedId p"; cases "selectedId q") (simp_all add: presentValue_def)
  moreover from assms have "zoom p = zoom q" by (simp add: presentValue_def)
  moreover from assms have "pan p = pan q"
    by (cases "pan p", cases "pan q") (simp add: presentValue_def)
  ultimately show ?thesis by (cases p, cases q) simp
qed

text \<open>
  A snapshot with a number that is not finite is not written faithfully: its zoom comes
  back as \<^verbatim>\<open>null\<close>.
\<close>

lemma parseState_nonfinite_zoom:
  "parseState (serializeState
      \<lparr> objects = [], selectedId = None, zoom = NaN, pan = \<lparr> pan_x = Num 0, pan_y = Num 0 \<rparr> \<rparr>) =
     Inr (JObject [ (''objects'', JArray []), (''selectedId'', JNull), (''zoom'', JNull),
                    (''pan'', JObject [ (''x'', JNumber (Num 0)), (''y'', JNumber (Num 0)) ]) ])"
  by (simp add: parseState_def serializeState_def JSON_stringify_def JSON_parse_def
        presentValue_def nullish_def setProp_def)

text \<open>
  C5. For every valid snapshot (every number in it is finite, so that JSON text can denote
  it), parsing the serialized snapshot gives the value of exactly one snapshot: the given
  one with the z-indices of its objects set to their array positions. When the snapshot is
  normalized, the round trip gives the snapshot itself.
\<close>

theorem parse_serialize_roundtrip:
  assumes "validSnapshot s"
  shows "parseState (serializeState s) =
           Inr (presentValue (s\<lparr> objects := renumberFrom 0 (objects s) \<rparr>)) \<and>
         (parseState (serializeState s) = Inr (presentValue q)) =
           (q = s\<lparr> objects := renumberFrom 0 (objects s) \<rparr>) \<and>
         (zIndexNormalized (objects s) \<longrightarrow>
            parseState (serializeState s) = Inr (presentValue s))"
proof -
  have r: "parseState (serializeState s) =
           Inr (presentValue (s\<lparr> objects := renumberFrom 0 (objects s) \<rparr>))"
    using assms
    by (simp add: serializeState_def JSON_stringify_def jsonOf_presentValue
          parseState_presentValue)
  have "renumberFrom 0 (objects s) = objects s" if "zIndexNormalized (objects s)"
    using that normalizeZIndex_fixed [of "objects s"] by (simp add: normalizeZIndex_renumberFrom)
  with r have i: "zIndexNormalized (objects s) \<longrightarrow>
      parseState (serializeState s) = Inr (presentValue s)"
    by simp
  have "(presentValue (s\<lparr> objects := renumberFrom 0 (objects s) \<rparr>) = presentValue q) =
        (q = s\<lparr> objects := renumberFrom 0 (objects s) \<rparr>)"
    by (auto dest: presentValue_inject)
  with r i show ?thesis by simp
qed

lemma validSnapshot_initial: "validSnapshot initialPresent"
  by (simp add: validSnapshot_def initialPresent_def initialRegions_def createRegion_def Let_def
        finiteObject_def finiteOption_def getBoundsFromPoints_def Math_min_spread_def
        Math_max_spread_def)

lemma validSnapshot_objects:
  "validSnapshot p \<Longrightarrow> set objs \<subseteq> set (objects p) \<Longrightarrow> validSnapshot (p\<lparr> objects := objs \<rparr>)"
  by (auto simp: validSnapshot_def list_all_iff)

theorem parse_serialize_roundtrip_witness:
  "validSnapshot initialPresent \<and> zIndexNormalized (objects initialPresent) \<and>
   parseState (serializeState initialPresent) = Inr (presentValue initialPresent) \<and>
   validSnapshot (initialPresent\<lparr> objects := rev initialRegions \<rparr>) \<and>
   map zIndex (rev initialRegions) = [Num 3, Num 2, Num 1, Num 0] \<and>
   parseState (serializeState (initialPresent\<lparr> objects := rev initialRegions \<rparr>)) =
     Inr (presentValue (initialPresent\<lparr> objects := renumberFrom 0 (rev initialRegions) \<rparr>)) \<and>
   map zIndex (renumberFrom 0 (rev initialRegions)) = [Num 0, Num 1, Num 2, Num 3]"
proof -
  have n: "zIndexNormalized (objects initialPresent)"
    by (simp add: initialPresent_def zIndexNormalized_initial)
  have v: "validSnapshot (initialPresent\<lparr> objects := rev initialRegions \<rparr>)"
    by (rule validSnapshot_objects [OF validSnapshot_initial]) (simp add: initialPresent_def)
  have z: "map zIndex (rev initialRegions) = [Num 3, Num 2, Num 1, Num 0] \<and>
           map zIndex (renumberFrom 0 (rev initialRegions)) = [Num 0, Num 1, Num 2, Num 3]"
    by (simp add: initialRegions_def createRegion_def Let_def)
  from parse_serialize_roundtrip [OF validSnapshot_initial] n
  have a: "parseState (serializeState initialPresent) = Inr (presentValue initialPresent)"
    by blast
  from parse_serialize_roundtrip [OF v]
  have b: "parseState (serializeState (initialPresent\<lparr> objects := rev initialRegions \<rparr>)) =
     Inr (presentValue (initialPresent\<lparr> objects := renumberFrom 0 (rev initialRegions) \<rparr>))"
    by simp
  from validSnapshot_initial n a v z b show ?thesis by blast
qed

end
